theory Spec2Isabelle
  imports Main "HOL-Library.Word"
begin

section \<open>The contact-form backend of geonix-landing (\<^verbatim>\<open>src/api/contact.ts\<close>)\<close>

subsection \<open>Strings\<close>

text \<open>
  A JavaScript string is a sequence of UTF-16 code units, and \<^verbatim>\<open>length\<close>,
  \<^verbatim>\<open>slice\<close>, \<^verbatim>\<open>trim\<close> and the regular expressions of the source work
  on code units. A string is therefore a list of 16-bit words; \<open>js\<close> embeds an ASCII
  literal.
\<close>

type_synonym jschar = "16 word"
type_synonym jsstring = "jschar list"

definition js :: "string \<Rightarrow> jsstring" where
  "js s = map (\<lambda>c. of_nat (of_char c)) s"

definition isWhiteSpace :: "jschar \<Rightarrow> bool" where
  \<comment> \<open>\<^verbatim>\<open>\s\<close> and \<^verbatim>\<open>trim\<close>: ECMAScript's WhiteSpace and LineTerminator code units\<close>
  "isWhiteSpace c =
     (c \<in> {0x09, 0x0A, 0x0B, 0x0C, 0x0D, 0x20, 0xA0, 0x1680, 0x2028, 0x2029, 0x202F,
            0x205F, 0x3000, 0xFEFF} \<or> (0x2000 \<le> c \<and> c \<le> 0x200A))"

definition trim :: "jsstring \<Rightarrow> jsstring" where
  "trim s = rev (dropWhile isWhiteSpace (rev (dropWhile isWhiteSpace s)))"

definition slice :: "nat \<Rightarrow> nat \<Rightarrow> jsstring \<Rightarrow> jsstring" where
  \<comment> \<open>\<^verbatim>\<open>s.slice(a, b)\<close> for \<open>0 \<le> a \<le> b\<close>\<close>
  "slice a b s = take (b - a) (drop a s)"

definition padStart :: "nat \<Rightarrow> jschar \<Rightarrow> jsstring \<Rightarrow> jsstring" where
  \<comment> \<open>\<^verbatim>\<open>s.padStart(n, c)\<close> with a filler of one character\<close>
  "padStart n c s = replicate (n - length s) c @ s"

definition toUpperCase :: "jsstring \<Rightarrow> jsstring" where
  \<comment> \<open>on the letters a to z; the source applies it to a radix-36 rendering only\<close>
  "toUpperCase s = map (\<lambda>c. if 0x61 \<le> c \<and> c \<le> 0x7A then c - 0x20 else c) s"

fun digits :: "nat \<Rightarrow> jsstring" where
  "digits n =
     (if n < 10 then [0x30 + of_nat n] else digits (n div 10) @ [0x30 + of_nat (n mod 10)])"

definition String_num :: "int \<Rightarrow> jsstring" where
  \<comment> \<open>\<^verbatim>\<open>String(n)\<close> of a whole number (below \<open>10\<^sup>2\<^sup>1\<close> in size)\<close>
  "String_num n = (if n < 0 then 0x2D # digits (nat (- n)) else digits (nat n))"

fun join :: "jsstring \<Rightarrow> jsstring list \<Rightarrow> jsstring" where
  "join sep [] = []"
| "join sep [l] = l"
| "join sep (l # m # ls) = l @ sep @ join sep (m # ls)"

text \<open>
  A field of the JSON body, or an environment variable: absent (\<^verbatim>\<open>undefined\<close>) or a
  string. \<^verbatim>\<open>String(x || "")\<close> reads it as a string; \<^verbatim>\<open>!x\<close> holds when it
  is absent or empty.
\<close>

type_synonym field = "jsstring option"

definition String_or_empty :: "field \<Rightarrow> jsstring" where
  "String_or_empty x = (case x of None \<Rightarrow> [] | Some s \<Rightarrow> s)"

definition falsy :: "field \<Rightarrow> bool" where
  "falsy x = (case x of None \<Rightarrow> True | Some s \<Rightarrow> s = [])"

subsection \<open>Regular expressions\<close>

text \<open>
  The patterns of the source and of the specification are anchored at both ends, so
  a test is a match of the whole string. Matching is by derivatives.
\<close>

datatype regex =
    Nothing
  | Eps
  | Class "jschar \<Rightarrow> bool"
  | Seq regex regex
  | Alt regex regex
  | Star regex

fun nullable :: "regex \<Rightarrow> bool" where
  "nullable Nothing = False"
| "nullable Eps = True"
| "nullable (Class p) = False"
| "nullable (Seq r s) = (nullable r \<and> nullable s)"
| "nullable (Alt r s) = (nullable r \<or> nullable s)"
| "nullable (Star r) = True"

fun deriv :: "jschar \<Rightarrow> regex \<Rightarrow> regex" where
  "deriv c Nothing = Nothing"
| "deriv c Eps = Nothing"
| "deriv c (Class p) = (if p c then Eps else Nothing)"
| "deriv c (Seq r s) =
     (if nullable r then Alt (Seq (deriv c r) s) (deriv c s) else Seq (deriv c r) s)"
| "deriv c (Alt r s) = Alt (deriv c r) (deriv c s)"
| "deriv c (Star r) = Seq (deriv c r) (Star r)"

fun full_match :: "regex \<Rightarrow> jsstring \<Rightarrow> bool" where
  "full_match r [] = nullable r"
| "full_match r (c # cs) = full_match (deriv c r) cs"

definition Chr :: "jschar \<Rightarrow> regex" where
  "Chr a = Class (\<lambda>c. c = a)"

definition Plus :: "regex \<Rightarrow> regex" where
  \<comment> \<open>\<^verbatim>\<open>r+\<close>\<close>
  "Plus r = Seq r (Star r)"

fun Times :: "nat \<Rightarrow> regex \<Rightarrow> regex" where
  \<comment> \<open>\<^verbatim>\<open>r{n}\<close>\<close>
  "Times 0 r = Eps"
| "Times (Suc n) r = Seq r (Times n r)"

definition isUpper :: "jschar \<Rightarrow> bool" where
  \<comment> \<open>\<^verbatim>\<open>[A-Z]\<close>\<close>
  "isUpper c = (0x41 \<le> c \<and> c \<le> 0x5A)"

definition isDigit :: "jschar \<Rightarrow> bool" where
  \<comment> \<open>\<^verbatim>\<open>\d\<close>\<close>
  "isDigit c = (0x30 \<le> c \<and> c \<le> 0x39)"

text \<open>\<^verbatim>\<open>/^[^\s@]+@[^\s@]+\.[^\s@]+$/.test(email)\<close>\<close>

definition isValidEmail :: "jsstring \<Rightarrow> bool" where
  "isValidEmail email =
     (let a = Class (\<lambda>c. \<not> (isWhiteSpace c \<or> c = 0x40))
      in full_match (Seq (Plus a) (Seq (Chr 0x40) (Seq (Plus a) (Seq (Chr 0x2E) (Plus a)))))
           email)"

text \<open>The ticket format of the specification: \<^verbatim>\<open>^[A-Z]+-\d{8}-[A-Z0-9]{6}$\<close>\<close>

definition ticket_format :: "jsstring \<Rightarrow> bool" where
  "ticket_format t =
     full_match
       (Seq (Plus (Class isUpper)) (Seq (Chr 0x2D) (Seq (Times 8 (Class isDigit))
          (Seq (Chr 0x2D) (Times 6 (Class (\<lambda>c. isUpper c \<or> isDigit c)))))))
       t"

text \<open>
  What a pattern means: the set of strings it matches in full. The matcher by
  derivatives decides membership in this set.
\<close>

inductive_set star :: "jsstring set \<Rightarrow> jsstring set" for A :: "jsstring set" where
  star_empty: "[] \<in> star A"
| star_more: "u \<in> A \<Longrightarrow> v \<in> star A \<Longrightarrow> u @ v \<in> star A"

fun lang :: "regex \<Rightarrow> jsstring set" where
  "lang Nothing = {}"
| "lang Eps = {[]}"
| "lang (Class p) = {[c] | c. p c}"
| "lang (Seq r s) = {u @ v | u v. u \<in> lang r \<and> v \<in> lang s}"
| "lang (Alt r s) = lang r \<union> lang s"
| "lang (Star r) = star (lang r)"

subsection \<open>Header text\<close>

definition isCRLF :: "jschar \<Rightarrow> bool" where
  \<comment> \<open>\<^verbatim>\<open>[\r\n]\<close>\<close>
  "isCRLF c = (c = 0x0D \<or> c = 0x0A)"

text \<open>\<^verbatim>\<open>s.replace(/[\r\n]+/g, " ")\<close>: scanning from the left, the longest run of
  CR and LF that starts at a CR or LF becomes one space.\<close>

function replace_crlf_runs :: "jsstring \<Rightarrow> jsstring" where
  "replace_crlf_runs [] = []"
| "replace_crlf_runs (c # cs) =
     (if isCRLF c then 0x20 # replace_crlf_runs (dropWhile isCRLF cs)
      else c # replace_crlf_runs cs)"
  by pat_completeness auto
termination
  by (relation "measure length") (auto simp: less_Suc_eq_le length_dropWhile_le)

text \<open>\<^verbatim>\<open>String(s || "").replace(/[\r\n]+/g, " ").trim()\<close>, on a string.\<close>

definition escapeHeaderText :: "jsstring \<Rightarrow> jsstring" where
  "escapeHeaderText s = trim (replace_crlf_runs s)"

subsection \<open>The rate limiter\<close>

text \<open>
  \<^verbatim>\<open>const ipBucket = new Map<string, { count: number; resetAt: number }>()\<close>.
  \<^verbatim>\<open>Date.now()\<close> is a whole number of milliseconds and the counter only ever
  holds small whole numbers, so both are integers.
\<close>

definition RATE_LIMIT_WINDOW_MS :: int where
  "RATE_LIMIT_WINDOW_MS = 60000"

definition RATE_LIMIT_MAX :: int where
  "RATE_LIMIT_MAX = 3"

record rl_entry =
  count :: int
  resetAt :: int

type_synonym bucket = "jsstring \<rightharpoonup> rl_entry"

text \<open>The object \<^verbatim>\<open>rateLimit\<close> returns: \<^verbatim>\<open>{ ok: true }\<close> has no
  \<^verbatim>\<open>retryAfterMs\<close>.\<close>

record rl_result =
  ok :: bool
  retryAfterMs :: "int option"

text \<open>
  \<^verbatim>\<open>rateLimit(ip)\<close>, with the clock reading \<open>now\<close> and the table passed in
  and the table returned. An entry that exists is an object, hence truthy:
  \<^verbatim>\<open>!cur\<close> holds exactly when the key is absent.
\<close>

definition rateLimit :: "int \<Rightarrow> jsstring \<Rightarrow> bucket \<Rightarrow> rl_result \<times> bucket" where
  "rateLimit now ip ipBucket =
     (let fresh = (\<lparr>ok = True, retryAfterMs = None\<rparr>,
                   ipBucket(ip \<mapsto> \<lparr>count = 1, resetAt = now + RATE_LIMIT_WINDOW_MS\<rparr>))
      in case ipBucket ip of
           None \<Rightarrow> fresh
         | Some cur \<Rightarrow>
             if now > resetAt cur then fresh
             else if count cur \<ge> RATE_LIMIT_MAX
               then (\<lparr>ok = False, retryAfterMs = Some (resetAt cur - now)\<rparr>, ipBucket)
             else (\<lparr>ok = True, retryAfterMs = None\<rparr>,
                   ipBucket(ip \<mapsto> cur\<lparr>count := count cur + 1\<rparr>)))"

text \<open>A sequence of checks, each with its clock reading and key, run in order.\<close>

fun rateLimit_all :: "(int \<times> jsstring) list \<Rightarrow> bucket \<Rightarrow> bucket" where
  "rateLimit_all [] ipBucket = ipBucket"
| "rateLimit_all ((now, ip) # cs) ipBucket = rateLimit_all cs (snd (rateLimit now ip ipBucket))"

text \<open>
  The rate limiter as the specification words it (section 4.1): the contract
  \<open>check(clientKey) -> Allowed | Denied(retryAfterMs)\<close> over entries
  \<open>{count, windowResetAt}\<close>, with \<open>WINDOW_MS = 60,000\<close> and
  \<open>MAX_PER_WINDOW = 3\<close>.
\<close>

datatype decision = Allowed | Denied int

record RateLimitEntry =
  entry_count :: int
  windowResetAt :: int

definition spec_check ::
  "int \<Rightarrow> 'k \<Rightarrow> ('k \<rightharpoonup> RateLimitEntry) \<Rightarrow> decision \<times> ('k \<rightharpoonup> RateLimitEntry)" where
  "spec_check now key table =
     (if table key = None \<or> now > windowResetAt (the (table key))
        then (Allowed, table(key \<mapsto> \<lparr>entry_count = 1, windowResetAt = now + 60000\<rparr>))
      else if entry_count (the (table key)) \<ge> 3
        then (Denied (windowResetAt (the (table key)) - now), table)
      else (Allowed, table(key \<mapsto> \<lparr>entry_count = entry_count (the (table key)) + 1,
                                      windowResetAt = windowResetAt (the (table key))\<rparr>)))"

text \<open>How the source's values read as the specification's.\<close>

definition as_entry :: "rl_entry \<Rightarrow> RateLimitEntry" where
  "as_entry e = \<lparr>entry_count = count e, windowResetAt = resetAt e\<rparr>"

definition as_table :: "bucket \<Rightarrow> (jsstring \<rightharpoonup> RateLimitEntry)" where
  "as_table ipBucket = (\<lambda>k. map_option as_entry (ipBucket k))"

definition as_decision :: "rl_result \<Rightarrow> decision" where
  "as_decision r = (if ok r then Allowed else Denied (the (retryAfterMs r)))"

text \<open>Every stored entry has a count between 1 and the maximum.\<close>

definition bucket_inv :: "bucket \<Rightarrow> bool" where
  "bucket_inv ipBucket = (\<forall>k e. ipBucket k = Some e \<longrightarrow> 1 \<le> count e \<and> count e \<le> 3)"

text \<open>A check opens a window when the key has no entry or its window has expired.\<close>

definition opens_window :: "int \<Rightarrow> jsstring \<Rightarrow> bucket \<Rightarrow> bool" where
  "opens_window now ip ipBucket =
     (case ipBucket ip of None \<Rightarrow> True | Some cur \<Rightarrow> now > resetAt cur)"

subsection \<open>The ticket\<close>

text \<open>
  What \<^verbatim>\<open>new Date()\<close> reads: \<^verbatim>\<open>getFullYear()\<close>, \<^verbatim>\<open>getMonth()\<close>
  (from 0) and \<^verbatim>\<open>getDate()\<close>.
\<close>

record date =
  getFullYear :: int
  getMonth :: nat
  getDate :: nat

text \<open>
  \<^verbatim>\<open>makeTicket(prefix)\<close>. The clock and the random number generator belong to the
  runtime: the date read and the string \<open>r36\<close> that
  \<^verbatim>\<open>Math.random().toString(36)\<close> yields are parameters. For a random number in
  \<open>[0, 1)\<close> that string is \<^verbatim>\<open>0\<close>, or \<^verbatim>\<open>0.\<close> followed by digits of the number
  in radix 36 (0-9 and a-z); a number with a short expansion has a short rendering:
  \<^verbatim>\<open>(0.5).toString(36)\<close> is \<^verbatim>\<open>0.i\<close>.
\<close>

definition makeTicket :: "jsstring \<Rightarrow> date \<Rightarrow> jsstring \<Rightarrow> jsstring" where
  "makeTicket prefix d r36 =
     (let y = getFullYear d;
          m = padStart 2 0x30 (String_num (int (getMonth d) + 1));
          day = padStart 2 0x30 (String_num (int (getDate d)));
          rand = toUpperCase (slice 2 8 r36)
      in prefix @ js ''-'' @ String_num y @ m @ day @ js ''-'' @ rand)"

subsection \<open>The two messages\<close>

text \<open>
  The Korean texts of the messages, as UTF-16 code units (lines 121 to 156 of the
  source): "web inquiry", "receipt number", "hello", the honorific after the name,
  "your inquiry has been received successfully", "received content (summary)", "the
  person in charge will reply after checking; thank you", and "your inquiry has been
  received"; \<open>0x2019\<close> is the apostrophe of the English texts.
\<close>

definition ko_web_inquiry :: jsstring where
  "ko_web_inquiry = [0xC6F9, 0xBB38, 0xC758]"

definition ko_ticket_no :: jsstring where
  "ko_ticket_no = [0xC811, 0xC218, 0xBC88, 0xD638]"

definition ko_hello :: jsstring where
  "ko_hello = [0xC548, 0xB155, 0xD558, 0xC138, 0xC694]"

definition ko_nim :: jsstring where
  "ko_nim = [0xB2D8]"

definition ko_received_ok :: jsstring where
  "ko_received_ok =
     [0xBB38, 0xC758, 0xAC00, 0x0020, 0xC815, 0xC0C1, 0xC801, 0xC73C, 0xB85C, 0x0020,
      0xC811, 0xC218, 0xB418, 0xC5C8, 0xC2B5, 0xB2C8, 0xB2E4, 0x002E]"

definition ko_summary_label :: jsstring where
  "ko_summary_label = [0xC811, 0xC218, 0xB0B4, 0xC6A9, 0x0028, 0xC694, 0xC57D, 0x0029]"

definition ko_closing :: jsstring where
  "ko_closing =
     [0xB2F4, 0xB2F9, 0xC790, 0xAC00, 0x0020, 0xD655, 0xC778, 0x0020, 0xD6C4, 0x0020,
      0xD68C, 0xC2E0, 0xB4DC, 0xB9AC, 0xACA0, 0xC2B5, 0xB2C8, 0xB2E4, 0x002E, 0x0020,
      0xAC10, 0xC0AC, 0xD569, 0xB2C8, 0xB2E4, 0x002E]"

definition ko_inquiry_received :: jsstring where
  "ko_inquiry_received =
     [0xBB38, 0xC758, 0xAC00, 0x0020, 0xC811, 0xC218, 0xB418, 0xC5C8, 0xC2B5, 0xB2C8,
      0xB2E4]"

record mail =
  mail_from :: jsstring
  mail_to :: jsstring
  mail_replyTo :: jsstring
  mail_subject :: jsstring
  mail_text :: jsstring

text \<open>The notice to the site owner. \<^verbatim>\<open>filter(Boolean)\<close> drops every empty line.\<close>

definition adminMail ::
  "jsstring \<Rightarrow> jsstring \<Rightarrow> jsstring \<Rightarrow> jsstring \<Rightarrow> jsstring \<Rightarrow> jsstring \<Rightarrow> jsstring \<Rightarrow>
   jsstring \<Rightarrow> jsstring \<Rightarrow> jsstring \<Rightarrow> jsstring \<Rightarrow> mail" where
  "adminMail user to name email company phone website message safeName safeEmail ticket =
     \<lparr>mail_from = [0x22] @ js ''Website Contact'' @ [0x22] @ js '' <'' @ user @ js ''>'',
      mail_to = to,
      mail_replyTo = email,
      mail_subject =
        js ''[GEONIX '' @ ko_web_inquiry @ js ''] '' @ safeName @ js '' ('' @ safeEmail @ js '')'',
      mail_text = join [0x0A] (filter (\<lambda>l. l \<noteq> [])
        [js ''['' @ ko_ticket_no @ js ''] '' @ ticket,
         [],
         js ''Name: '' @ name,
         js ''Email: '' @ email,
         if company \<noteq> [] then js ''Company: '' @ company else [],
         if phone \<noteq> [] then js ''Phone: '' @ phone else [],
         if website \<noteq> [] then js ''Website: '' @ website else [],
         [],
         js ''Message:'',
         message])\<rparr>"

text \<open>\<^verbatim>\<open>message.length > 220 ? `${message.slice(0, 220)}...` : message\<close>\<close>

definition summary_of :: "jsstring \<Rightarrow> jsstring" where
  "summary_of message =
     (if length message > 220 then slice 0 220 message @ js ''...'' else message)"

text \<open>The lines of the acknowledgement to the submitter, in Korean and then in English.\<close>

definition ackLines ::
  "jsstring \<Rightarrow> jsstring \<Rightarrow> jsstring \<Rightarrow> jsstring \<Rightarrow> jsstring \<Rightarrow> jsstring list" where
  "ackLines name company phone ticket summary =
     [ko_hello @ js '' '' @ name @ ko_nim @ js '','',
      ko_received_ok,
      [],
      js ''- '' @ ko_ticket_no @ js '': '' @ ticket,
      if company \<noteq> [] then js ''- Company: '' @ company else js ''- Company: -'',
      if phone \<noteq> [] then js ''- Phone: '' @ phone else js ''- Phone: -'',
      js ''- '' @ ko_summary_label @ js '': '' @ summary,
      [],
      ko_closing,
      [],
      js ''------------------------------'',
      [],
      js ''Hello '' @ name @ js '','',
      js ''We'' @ [0x2019] @ js ''ve received your inquiry successfully.'',
      [],
      js ''- Ticket: '' @ ticket,
      if company \<noteq> [] then js ''- Company: '' @ company else js ''- Company: -'',
      if phone \<noteq> [] then js ''- Phone: '' @ phone else js ''- Phone: -'',
      js ''- Message (summary): '' @ summary,
      [],
      js ''Our team will get back to you as soon as possible. Thank you.'']"

definition ackMail ::
  "jsstring \<Rightarrow> jsstring \<Rightarrow> jsstring \<Rightarrow> jsstring \<Rightarrow> jsstring \<Rightarrow> jsstring \<Rightarrow> jsstring \<Rightarrow>
   jsstring \<Rightarrow> mail" where
  "ackMail user to name email company phone ticket summary =
     \<lparr>mail_from = [0x22] @ js ''GEONIX'' @ [0x22] @ js '' <'' @ user @ js ''>'',
      mail_to = email,
      mail_replyTo = to,
      mail_subject =
        ko_inquiry_received @ js '' / We'' @ [0x2019] @
        js ''ve received your inquiry (Ticket: '' @ ticket @ js '')'',
      mail_text = join [0x0A] (ackLines name company phone ticket summary)\<rparr>"

subsection \<open>The handler\<close>

text \<open>
  The request. Its body arrives as an object, or as a string that
  \<^verbatim>\<open>JSON.parse\<close> turns into one or rejects (\<open>Unparsable\<close>: the parser throws).
  The fields of the body are strings or absent, as in the data model of the
  specification; a body that is missing altogether has every field absent.
\<close>

record contact_body =
  body_hp :: field
  body_name :: field
  body_email :: field
  body_message :: field
  body_company :: field
  body_website :: field
  body_phone :: field

datatype parsed_body = Unparsable | Parsed contact_body

record request =
  req_method :: jsstring
  req_body :: parsed_body
  x_forwarded_for :: field
  remoteAddress :: field

text \<open>\<^verbatim>\<open>process.env\<close>. The port and the secure flag only configure the transport.\<close>

record env =
  MAIL_HOST :: field
  MAIL_USER :: field
  MAIL_PASS :: field
  MAIL_TO :: field

text \<open>The JSON of a response: \<^verbatim>\<open>{ok: true}\<close>, \<^verbatim>\<open>{ok: true, ticket}\<close> or
  \<^verbatim>\<open>{ok: false, error}\<close>.\<close>

datatype json = JOk | JTicket jsstring | JError jsstring

text \<open>
  What one call of the handler does: the response (status, JSON, the
  \<^verbatim>\<open>Retry-After\<close> header when set), the messages handed to
  \<^verbatim>\<open>transporter.sendMail\<close> in order, and the rate-limit table afterwards.
\<close>

record outcome =
  status :: nat
  json :: json
  retryAfter :: field
  sent :: "mail list"
  table :: bucket

definition respond :: "nat \<Rightarrow> json \<Rightarrow> mail list \<Rightarrow> bucket \<Rightarrow> outcome" where
  "respond st j ms ipBucket =
     \<lparr>status = st, json = j, retryAfter = None, sent = ms, table = ipBucket\<rparr>"

text \<open>The \<^verbatim>\<open>catch\<close> block: whatever was thrown, status 500 and \<^verbatim>\<open>send_failed\<close>.\<close>

definition caught :: "mail list \<Rightarrow> bucket \<Rightarrow> outcome" where
  "caught ms ipBucket = respond 500 (JError (js ''send_failed'')) ms ipBucket"

text \<open>\<^verbatim>\<open>body?.hp && String(body.hp).trim() !== ""\<close>\<close>

definition honeypot :: "contact_body \<Rightarrow> bool" where
  "honeypot body = (case body_hp body of None \<Rightarrow> False | Some hp \<Rightarrow> hp \<noteq> [] \<and> trim hp \<noteq> [])"

text \<open>The first entry of \<^verbatim>\<open>x-forwarded-for\<close>, trimmed; when the header is absent or
  that entry is empty, the address of the socket, or \<^verbatim>\<open>unknown\<close>.\<close>

definition clientIp :: "request \<Rightarrow> jsstring" where
  "clientIp req =
     (let forwarded = (case x_forwarded_for req of
                         None \<Rightarrow> []
                       | Some h \<Rightarrow> trim (takeWhile (\<lambda>c. c \<noteq> 0x2C) h))
      in if forwarded \<noteq> [] then forwarded
         else (case remoteAddress req of None \<Rightarrow> js ''unknown'' | Some a \<Rightarrow> a))"

text \<open>\<^verbatim>\<open>String(Math.ceil((rl.retryAfterMs ?? 0) / 1000))\<close>\<close>

definition retryAfterSeconds :: "rl_result \<Rightarrow> jsstring" where
  "retryAfterSeconds rl =
     String_num (- ((- (case retryAfterMs rl of None \<Rightarrow> 0 | Some ms \<Rightarrow> ms)) div 1000))"

text \<open>
  \<^verbatim>\<open>handler(req, res)\<close>. The relay is a parameter: \<open>sendMail m\<close> holds when
  \<^verbatim>\<open>transporter.sendMail(m)\<close> resolves, and fails to hold when it throws. So are
  the clock (\<open>now\<close>, \<open>today\<close>), the rendering of the random number (\<open>r36\<close>) and
  the environment. Every throw inside \<^verbatim>\<open>try\<close> ends in \<open>caught\<close>.
\<close>

definition handler ::
  "env \<Rightarrow> (mail \<Rightarrow> bool) \<Rightarrow> int \<Rightarrow> date \<Rightarrow> jsstring \<Rightarrow> bucket \<Rightarrow> request \<Rightarrow> outcome" where
  "handler env sendMail now today r36 ipBucket req =
     (if req_method req \<noteq> js ''POST''
        then respond 405 (JError (js ''method_not_allowed'')) [] ipBucket
      else case req_body req of
        Unparsable \<Rightarrow> caught [] ipBucket
      | Parsed body \<Rightarrow>
          if honeypot body then respond 200 JOk [] ipBucket
          else
            let ip = clientIp req;
                rl = fst (rateLimit now ip ipBucket);
                ipBucket' = snd (rateLimit now ip ipBucket)
            in if \<not> ok rl
                 then (respond 429 (JError (js ''rate_limited'')) [] ipBucket')
                        \<lparr>retryAfter := Some (retryAfterSeconds rl)\<rparr>
               else
                 let name = trim (String_or_empty (body_name body));
                     email = trim (String_or_empty (body_email body));
                     message = trim (String_or_empty (body_message body));
                     company = trim (String_or_empty (body_company body));
                     website = trim (String_or_empty (body_website body));
                     phone = trim (String_or_empty (body_phone body))
                 in if name = [] \<or> email = [] \<or> message = []
                      then respond 400 (JError (js ''missing_fields'')) [] ipBucket'
                    else if \<not> isValidEmail email
                      then respond 400 (JError (js ''invalid_email'')) [] ipBucket'
                    else if length name > 80 \<or> length company > 120 \<or>
                            length website > 200 \<or> length phone > 80
                      then respond 400 (JError (js ''field_too_long'')) [] ipBucket'
                    else if length message > 5000
                      then respond 400 (JError (js ''message_too_long'')) [] ipBucket'
                    else if falsy (MAIL_HOST env) \<or> falsy (MAIL_USER env) \<or>
                            falsy (MAIL_PASS env) \<or> falsy (MAIL_TO env)
                      then respond 500 (JError (js ''server_not_configured'')) [] ipBucket'
                    else
                      let user = String_or_empty (MAIL_USER env);
                          to = String_or_empty (MAIL_TO env);
                          safeName = escapeHeaderText name;
                          safeEmail = escapeHeaderText email;
                          ticket = makeTicket (js ''GEONIX'') today r36;
                          admin = adminMail user to name email company phone website message
                                    safeName safeEmail ticket
                      in if \<not> sendMail admin then caught [admin] ipBucket'
                         else
                           let summary = summary_of message;
                               ack = ackMail user to name email company phone ticket summary
                           in if \<not> sendMail ack then caught [admin, ack] ipBucket'
                              else respond 200 (JTicket ticket) [admin, ack] ipBucket')"

text \<open>
  The conditions under which a request reaches the configuration check and the two
  sends: the checks of lines 74 to 89 all pass, and the four mail settings of line 98
  are present.
\<close>

definition passes_validation :: "contact_body \<Rightarrow> bool" where
  "passes_validation body =
     (let name = trim (String_or_empty (body_name body));
          email = trim (String_or_empty (body_email body));
          message = trim (String_or_empty (body_message body));
          company = trim (String_or_empty (body_company body));
          website = trim (String_or_empty (body_website body));
          phone = trim (String_or_empty (body_phone body))
      in name \<noteq> [] \<and> email \<noteq> [] \<and> message \<noteq> [] \<and> isValidEmail email \<and>
         length name \<le> 80 \<and> length company \<le> 120 \<and> length website \<le> 200 \<and>
         length phone \<le> 80 \<and> length message \<le> 5000)"

definition configured :: "env \<Rightarrow> bool" where
  "configured env =
     (\<not> falsy (MAIL_HOST env) \<and> \<not> falsy (MAIL_USER env) \<and> \<not> falsy (MAIL_PASS env) \<and>
      \<not> falsy (MAIL_TO env))"

text \<open>The admin notice of a request, as the handler composes it.\<close>

definition adminMail_of :: "env \<Rightarrow> date \<Rightarrow> jsstring \<Rightarrow> contact_body \<Rightarrow> mail" where
  "adminMail_of env today r36 body =
     (let name = trim (String_or_empty (body_name body));
          email = trim (String_or_empty (body_email body))
      in adminMail (String_or_empty (MAIL_USER env)) (String_or_empty (MAIL_TO env)) name email
           (trim (String_or_empty (body_company body))) (trim (String_or_empty (body_phone body)))
           (trim (String_or_empty (body_website body)))
           (trim (String_or_empty (body_message body)))
           (escapeHeaderText name) (escapeHeaderText email)
           (makeTicket (js ''GEONIX'') today r36))"

subsection \<open>A request for the examples\<close>

definition example_env :: env where
  "example_env =
     \<lparr>MAIL_HOST = Some (js ''smtp.example.com''), MAIL_USER = Some (js ''web@example.com''),
      MAIL_PASS = Some (js ''secret''), MAIL_TO = Some (js ''owner@example.com'')\<rparr>"

definition example_body :: contact_body where
  "example_body =
     \<lparr>body_hp = None, body_name = Some (js ''Kim''), body_email = Some (js ''kim@example.com ''),
      body_message = Some (js ''Hello''), body_company = None, body_website = None,
      body_phone = Some (js ''010-1234'')\<rparr>"

definition example_request :: request where
  "example_request =
     \<lparr>req_method = js ''POST'', req_body = Parsed example_body,
      x_forwarded_for = Some (js ''203.0.113.7, 10.0.0.1''), remoteAddress = None\<rparr>"

definition example_long_body :: contact_body where
  "example_long_body = example_body\<lparr>body_message := Some (replicate 300 0x61)\<rparr>"

definition example_bot_body :: contact_body where
  "example_bot_body = example_body\<lparr>body_hp := Some (js '' x '')\<rparr>"

definition example_date :: date where
  "example_date = \<lparr>getFullYear = 2026, getMonth = 1, getDate = 10\<rparr>"

section \<open>Properties of the rate limiter\<close>

lemma rateLimit_other_key:
  "k \<noteq> ip \<Longrightarrow> snd (rateLimit now ip ipBucket) k = ipBucket k"
  by (simp add: rateLimit_def Let_def split: option.splits)

lemma rateLimit_all_other_keys:
  "k \<notin> snd ` set cs \<Longrightarrow> rateLimit_all cs ipBucket k = ipBucket k"
proof (induction cs arbitrary: ipBucket)
  case Nil
  then show ?case by simp
next
  case (Cons c cs)
  obtain now ip where c: "c = (now, ip)" by (cases c)
  from Cons.prems c have "k \<noteq> ip" and "k \<notin> snd ` set cs" by auto
  then show ?case using Cons.IH c by (simp add: rateLimit_other_key)
qed

lemma rateLimit_opens:
  "opens_window now ip ipBucket \<Longrightarrow>
   fst (rateLimit now ip ipBucket) = \<lparr>ok = True, retryAfterMs = None\<rparr> \<and>
   snd (rateLimit now ip ipBucket) ip = Some \<lparr>count = 1, resetAt = now + 60000\<rparr>"
  by (cases "ipBucket ip")
     (simp_all add: rateLimit_def opens_window_def Let_def RATE_LIMIT_WINDOW_MS_def)

lemma rateLimit_within_below_max:
  "ipBucket ip = Some \<lparr>count = c, resetAt = r\<rparr> \<Longrightarrow> now \<le> r \<Longrightarrow> c < 3 \<Longrightarrow>
   fst (rateLimit now ip ipBucket) = \<lparr>ok = True, retryAfterMs = None\<rparr> \<and>
   snd (rateLimit now ip ipBucket) ip = Some \<lparr>count = c + 1, resetAt = r\<rparr>"
  by (simp add: rateLimit_def Let_def RATE_LIMIT_MAX_def)

lemma rateLimit_within_at_max:
  "ipBucket ip = Some \<lparr>count = c, resetAt = r\<rparr> \<Longrightarrow> now \<le> r \<Longrightarrow> 3 \<le> c \<Longrightarrow>
   rateLimit now ip ipBucket = (\<lparr>ok = False, retryAfterMs = Some (r - now)\<rparr>, ipBucket)"
  by (simp add: rateLimit_def Let_def RATE_LIMIT_MAX_def)

lemma rateLimit_preserves_inv:
  "bucket_inv (snd (rateLimit now ip ipBucket))" if "bucket_inv ipBucket"
proof (cases "ipBucket ip")
  case None
  then show ?thesis using that by (auto simp: bucket_inv_def rateLimit_def Let_def)
next
  case (Some cur)
  with that have cur: "1 \<le> count cur" "count cur \<le> 3" by (auto simp: bucket_inv_def)
  have old: "1 \<le> count e \<and> count e \<le> 3" if "ipBucket k = Some e" for k e
    using \<open>bucket_inv ipBucket\<close> that by (simp add: bucket_inv_def)
  show ?thesis
    unfolding bucket_inv_def
  proof (intro allI impI)
    fix k e
    assume e: "snd (rateLimit now ip ipBucket) k = Some e"
    show "1 \<le> count e \<and> count e \<le> 3"
    proof (cases "k = ip")
      case True
      with e Some cur show ?thesis
        by (auto simp: rateLimit_def Let_def RATE_LIMIT_MAX_def split: if_splits)
    next
      case False
      with e have "ipBucket k = Some e" by (simp add: rateLimit_other_key)
      then show ?thesis by (rule old)
    qed
  qed
qed

lemma rateLimit_all_preserves_inv:
  "bucket_inv ipBucket \<Longrightarrow> bucket_inv (rateLimit_all cs ipBucket)"
proof (induction cs arbitrary: ipBucket)
  case Nil
  then show ?case by simp
next
  case (Cons c cs)
  obtain now ip where c: "c = (now, ip)" by (cases c)
  have "bucket_inv (snd (rateLimit now ip ipBucket))"
    using Cons.prems by (rule rateLimit_preserves_inv)
  then show ?case using Cons.IH c by simp
qed

lemma bucket_inv_empty: "bucket_inv Map.empty"
  by (simp add: bucket_inv_def)

text \<open>
  C1. For every key and clock reading the check is the fixed-window counter of the
  specification: read through \<open>as_table\<close> and \<open>as_decision\<close>, the decision and the
  table that \<open>rateLimit\<close> returns are the ones \<open>spec_check\<close> describes (a new entry
  with count 1 and reset time now + 60,000 when the key is absent or its window has
  expired; Denied with windowResetAt - now when the count is at least 3; the count
  incremented otherwise).
\<close>

theorem rateLimit_refines_spec_check:
  "as_decision (fst (rateLimit now ip ipBucket)) = fst (spec_check now ip (as_table ipBucket))
   \<and> as_table (snd (rateLimit now ip ipBucket)) = snd (spec_check now ip (as_table ipBucket))"
  by (auto simp: rateLimit_def spec_check_def as_decision_def as_table_def as_entry_def
        RATE_LIMIT_WINDOW_MS_def RATE_LIMIT_MAX_def Let_def fun_eq_iff
      split: option.splits)

text \<open>
  C2, as the code has it. When the first check for a key opens a window at \<open>t1\<close> and
  the next three checks for that key come at \<open>t1 \<le> t2 \<le> t3 \<le> t4 \<le> t1 + 60,000\<close>
  (checks for other keys may come in between), the first three are allowed and the
  fourth is denied with \<open>retryAfterMs = t1 + 60,000 - t4\<close>, which is at least 0 and at
  most 60,000, and strictly positive exactly when \<open>t4 < t1 + 60,000\<close>.
\<close>

theorem rateLimit_fourth_in_window_denied:
  assumes first: "opens_window t1 ip b0"
    and times: "t1 \<le> t2" "t2 \<le> t3" "t3 \<le> t4" "t4 \<le> t1 + 60000"
    and others: "ip \<notin> snd ` set cs1" "ip \<notin> snd ` set cs2" "ip \<notin> snd ` set cs3"
    and b1: "b1 = rateLimit_all cs1 (snd (rateLimit t1 ip b0))"
    and b2: "b2 = rateLimit_all cs2 (snd (rateLimit t2 ip b1))"
    and b3: "b3 = rateLimit_all cs3 (snd (rateLimit t3 ip b2))"
  shows "ok (fst (rateLimit t1 ip b0)) \<and> ok (fst (rateLimit t2 ip b1)) \<and>
         ok (fst (rateLimit t3 ip b2)) \<and>
         rateLimit t4 ip b3 = (\<lparr>ok = False, retryAfterMs = Some (t1 + 60000 - t4)\<rparr>, b3) \<and>
         0 \<le> t1 + 60000 - t4 \<and> t1 + 60000 - t4 \<le> 60000 \<and>
         (0 < t1 + 60000 - t4 \<longleftrightarrow> t4 < t1 + 60000)"
proof -
  have r1: "fst (rateLimit t1 ip b0) = \<lparr>ok = True, retryAfterMs = None\<rparr>"
    and e1: "b1 ip = Some \<lparr>count = 1, resetAt = t1 + 60000\<rparr>"
    using rateLimit_opens [OF first] others(1) b1 by (simp_all add: rateLimit_all_other_keys)
  have r2: "fst (rateLimit t2 ip b1) = \<lparr>ok = True, retryAfterMs = None\<rparr>"
    and e2: "b2 ip = Some \<lparr>count = 2, resetAt = t1 + 60000\<rparr>"
    using rateLimit_within_below_max [of b1 ip 1 "t1 + 60000" t2] e1 times others(2) b2
    by (simp_all add: rateLimit_all_other_keys)
  have r3: "fst (rateLimit t3 ip b2) = \<lparr>ok = True, retryAfterMs = None\<rparr>"
    and e3: "b3 ip = Some \<lparr>count = 3, resetAt = t1 + 60000\<rparr>"
    using rateLimit_within_below_max [of b2 ip 2 "t1 + 60000" t3] e2 times others(3) b3
    by (simp_all add: rateLimit_all_other_keys)
  have r4: "rateLimit t4 ip b3 = (\<lparr>ok = False, retryAfterMs = Some (t1 + 60000 - t4)\<rparr>, b3)"
    using rateLimit_within_at_max [of b3 ip 3 "t1 + 60000" t4] e3 times by simp
  show ?thesis using r1 r2 r3 r4 times by simp
qed

theorem rateLimit_fourth_in_window_denied_witness:
  "ok (fst (rateLimit 0 (js ''203.0.113.7'') Map.empty)) \<and>
   rateLimit 59000 (js ''203.0.113.7'')
     (snd (rateLimit 20 (js ''203.0.113.7'')
       (snd (rateLimit 10 (js ''203.0.113.7'')
         (snd (rateLimit 0 (js ''203.0.113.7'') Map.empty))))))
   = (\<lparr>ok = False, retryAfterMs = Some 1000\<rparr>,
      snd (rateLimit 20 (js ''203.0.113.7'')
       (snd (rateLimit 10 (js ''203.0.113.7'')
         (snd (rateLimit 0 (js ''203.0.113.7'') Map.empty))))))"
  using rateLimit_fourth_in_window_denied
    [of 0 "js ''203.0.113.7''" Map.empty 10 20 59000 "[]" "[]" "[]"
        "snd (rateLimit 0 (js ''203.0.113.7'') Map.empty)"
        "snd (rateLimit 10 (js ''203.0.113.7'') (snd (rateLimit 0 (js ''203.0.113.7'') Map.empty)))"
        "snd (rateLimit 20 (js ''203.0.113.7'')
           (snd (rateLimit 10 (js ''203.0.113.7'')
             (snd (rateLimit 0 (js ''203.0.113.7'') Map.empty)))))"]
  by (simp add: opens_window_def)

text \<open>
  C2, as the claim states it, fails at the end of the window: a fourth check at
  exactly \<open>t1 + 60,000\<close> is still inside the window (the window has expired only when
  \<open>now > resetAt\<close>) and is denied with \<open>retryAfterMs = 0\<close>, which is not strictly
  greater than 0.
\<close>

theorem rateLimit_fourth_at_window_end_retry_zero:
  "fst (rateLimit 60000 (js ''203.0.113.7'')
     (snd (rateLimit 0 (js ''203.0.113.7'')
       (snd (rateLimit 0 (js ''203.0.113.7'')
         (snd (rateLimit 0 (js ''203.0.113.7'') Map.empty)))))))
   = \<lparr>ok = False, retryAfterMs = Some 0\<rparr>"
  by (simp add: rateLimit_def Let_def RATE_LIMIT_WINDOW_MS_def RATE_LIMIT_MAX_def)

text \<open>
  C9. A check that is denied leaves the table as it was: the entry of the key keeps
  its count and its reset time, and no other entry changes.
\<close>

theorem rateLimit_denied_unchanged:
  "\<not> ok (fst (rateLimit now ip ipBucket)) \<Longrightarrow> snd (rateLimit now ip ipBucket) = ipBucket"
  by (cases "ipBucket ip") (simp_all add: rateLimit_def Let_def split: if_splits)

theorem rateLimit_denied_unchanged_witness:
  "\<not> ok (fst (rateLimit 10 (js ''203.0.113.7'')
            [js ''203.0.113.7'' \<mapsto> \<lparr>count = 3, resetAt = 100\<rparr>])) \<and>
   snd (rateLimit 10 (js ''203.0.113.7'') [js ''203.0.113.7'' \<mapsto> \<lparr>count = 3, resetAt = 100\<rparr>])
     = [js ''203.0.113.7'' \<mapsto> \<lparr>count = 3, resetAt = 100\<rparr>]"
proof -
  have h: "\<not> ok (fst (rateLimit 10 (js ''203.0.113.7'')
            [js ''203.0.113.7'' \<mapsto> \<lparr>count = 3, resetAt = 100\<rparr>]))"
    by (simp add: rateLimit_def Let_def RATE_LIMIT_MAX_def)
  from h rateLimit_denied_unchanged [OF h] show ?thesis by simp
qed

text \<open>
  C10. After any sequence of checks that starts from the empty table every stored
  entry has a count between 1 and 3, and a single check keeps that true of any table
  of which it is true.
\<close>

theorem rateLimit_count_invariant:
  "bucket_inv (rateLimit_all cs Map.empty) \<and>
   (bucket_inv ipBucket \<longrightarrow> bucket_inv (snd (rateLimit now ip ipBucket)))"
  by (simp add: rateLimit_all_preserves_inv bucket_inv_empty rateLimit_preserves_inv)

theorem rateLimit_count_invariant_witness:
  "bucket_inv (rateLimit_all [(0, js ''a''), (1, js ''a''), (2, js ''b''), (3, js ''a''),
                              (4, js ''a'')] Map.empty) \<and>
   bucket_inv [js ''a'' \<mapsto> \<lparr>count = 3, resetAt = 100\<rparr>] \<and>
   bucket_inv (snd (rateLimit 200 (js ''a'') [js ''a'' \<mapsto> \<lparr>count = 3, resetAt = 100\<rparr>]))"
proof -
  have h: "bucket_inv [js ''a'' \<mapsto> \<lparr>count = 3, resetAt = 100\<rparr>]"
    by (simp add: bucket_inv_def)
  from h rateLimit_count_invariant
    [of "[(0, js ''a''), (1, js ''a''), (2, js ''b''), (3, js ''a''), (4, js ''a'')]"
        "[js ''a'' \<mapsto> \<lparr>count = 3, resetAt = 100\<rparr>]" 200 "js ''a''"]
  show ?thesis by simp
qed

section \<open>Properties of the patterns\<close>

lemma nullable_lang: "nullable r \<longleftrightarrow> [] \<in> lang r"
  by (induction r) (auto intro: star_empty)

lemma star_Cons:
  "c # w \<in> star A \<longleftrightarrow> (\<exists>u v. w = u @ v \<and> c # u \<in> A \<and> v \<in> star A)"
proof
  assume "c # w \<in> star A"
  then show "\<exists>u v. w = u @ v \<and> c # u \<in> A \<and> v \<in> star A"
  proof (induction "c # w" rule: star.induct)
    case (star_more u v)
    show ?case
    proof (cases u)
      case Nil
      with star_more(3,4) show ?thesis by simp
    next
      case (Cons d u')
      with star_more(1,2,4) show ?thesis by auto
    qed
  qed
next
  assume "\<exists>u v. w = u @ v \<and> c # u \<in> A \<and> v \<in> star A"
  then obtain u v where "w = u @ v" "c # u \<in> A" "v \<in> star A" by blast
  then show "c # w \<in> star A" using star_more [of "c # u" A v] by simp
qed

lemma deriv_lang: "w \<in> lang (deriv c r) \<longleftrightarrow> c # w \<in> lang r"
proof (induction r arbitrary: w)
  case (Seq r s)
  show ?case
  proof
    assume "w \<in> lang (deriv c (Seq r s))"
    then consider u v where "w = u @ v" "u \<in> lang (deriv c r)" "v \<in> lang s"
      | "nullable r" "w \<in> lang (deriv c s)"
      by (auto split: if_splits)
    then show "c # w \<in> lang (Seq r s)"
    proof cases
      case 1
      then have "c # u \<in> lang r" using Seq.IH(1) by simp
      with 1 have "(c # u) @ v \<in> lang (Seq r s)" by (simp del: append_Cons) blast
      with 1 show ?thesis by simp
    next
      case 2
      then have "[] \<in> lang r" "c # w \<in> lang s" using Seq.IH(2) by (simp_all add: nullable_lang)
      then have "[] @ (c # w) \<in> lang (Seq r s)" by (simp del: append_Nil) blast
      then show ?thesis by simp
    qed
  next
    assume "c # w \<in> lang (Seq r s)"
    then obtain u v where uv: "c # w = u @ v" "u \<in> lang r" "v \<in> lang s" by auto
    show "w \<in> lang (deriv c (Seq r s))"
    proof (cases u)
      case Nil
      with uv have "nullable r" "w \<in> lang (deriv c s)"
        using Seq.IH(2) by (simp_all add: nullable_lang)
      then show ?thesis by simp
    next
      case (Cons d u')
      with uv have "w = u' @ v" "u' \<in> lang (deriv c r)" using Seq.IH(1) by simp_all
      with uv(3) show ?thesis by auto
    qed
  qed
next
  case (Star r)
  show ?case
    using Star.IH by (auto simp: star_Cons)
qed auto

lemma full_match_lang: "full_match r w \<longleftrightarrow> w \<in> lang r"
  by (induction w arbitrary: r) (simp_all add: nullable_lang deriv_lang)

lemma star_Class: "w \<in> star {[c] | c. p c} \<longleftrightarrow> (\<forall>c\<in>set w. p c)"
proof
  assume "w \<in> star {[c] | c. p c}"
  then show "\<forall>c\<in>set w. p c" by (induction rule: star.induct) auto
next
  assume "\<forall>c\<in>set w. p c"
  then show "w \<in> star {[c] | c. p c}"
  proof (induction w)
    case Nil
    show ?case by (rule star_empty)
  next
    case (Cons c w)
    then have "[c] \<in> {[c] | c. p c}" "w \<in> star {[c] | c. p c}" by auto
    then have "[c] @ w \<in> star {[c] | c. p c}" by (rule star_more)
    then show ?case by simp
  qed
qed

lemma lang_Plus_Class: "w \<in> lang (Plus (Class p)) \<longleftrightarrow> w \<noteq> [] \<and> (\<forall>c\<in>set w. p c)"
proof
  assume "w \<in> lang (Plus (Class p))"
  then obtain u v where "w = u @ v" "u \<in> {[c] | c. p c}" "v \<in> star {[c] | c. p c}"
    by (auto simp: Plus_def)
  then show "w \<noteq> [] \<and> (\<forall>c\<in>set w. p c)" by (auto simp: star_Class)
next
  assume w: "w \<noteq> [] \<and> (\<forall>c\<in>set w. p c)"
  then obtain c v where cv: "w = [c] @ v" by (cases w) auto
  with w have "[c] \<in> lang (Class p)" "v \<in> lang (Star (Class p))" by (auto simp: star_Class)
  then have "[c] @ v \<in> lang (Seq (Class p) (Star (Class p)))"
    unfolding lang.simps(4) by blast
  with cv show "w \<in> lang (Plus (Class p))" by (simp only: Plus_def)
qed

lemma lang_Times_Class:
  "w \<in> lang (Times n (Class p)) \<longleftrightarrow> length w = n \<and> (\<forall>c\<in>set w. p c)"
proof (induction n arbitrary: w)
  case 0
  then show ?case by auto
next
  case (Suc n)
  show ?case
  proof
    assume "w \<in> lang (Times (Suc n) (Class p))"
    then obtain c v where "w = c # v" "p c" "v \<in> lang (Times n (Class p))" by auto
    then show "length w = Suc n \<and> (\<forall>c\<in>set w. p c)" by (simp add: Suc.IH)
  next
    assume w: "length w = Suc n \<and> (\<forall>c\<in>set w. p c)"
    then obtain c v where cv: "w = [c] @ v" by (cases w) auto
    with w have "[c] \<in> lang (Class p)" "v \<in> lang (Times n (Class p))"
      by (auto simp: Suc.IH)
    then have "[c] @ v \<in> lang (Seq (Class p) (Times n (Class p)))"
      unfolding lang.simps(4) by blast
    with cv show "w \<in> lang (Times (Suc n) (Class p))" by simp
  qed
qed

lemma lang_Seq: "w \<in> lang (Seq r s) \<longleftrightarrow> (\<exists>u v. w = u @ v \<and> u \<in> lang r \<and> v \<in> lang s)"
  by auto

lemma lang_Chr: "lang (Chr a) = {[a]}"
  by (auto simp: Chr_def)

lemma lang_SeqE:
  assumes "w \<in> lang (Seq r s)"
  obtains u v where "w = u @ v" "u \<in> lang r" "v \<in> lang s"
  using assms by auto

lemma lang_SeqI: "u \<in> lang r \<Longrightarrow> v \<in> lang s \<Longrightarrow> u @ v \<in> lang (Seq r s)"
  by auto

lemma lang_Chr_iff: "w \<in> lang (Chr a) \<longleftrightarrow> w = [a]"
  by (auto simp: Chr_def)

text \<open>A string of the shape \<open>^A+xB...\<close>: a block, a separator, the rest.\<close>

lemma lang_block_sep:
  "w \<in> lang (Seq r (Seq (Chr a) s)) \<longleftrightarrow> (\<exists>u v. w = u @ [a] @ v \<and> u \<in> lang r \<and> v \<in> lang s)"
proof
  assume "w \<in> lang (Seq r (Seq (Chr a) s))"
  then obtain u x where 1: "w = u @ x" "u \<in> lang r" "x \<in> lang (Seq (Chr a) s)"
    by (rule lang_SeqE)
  from 1(3) obtain h v where 2: "x = h @ v" "h \<in> lang (Chr a)" "v \<in> lang s"
    by (rule lang_SeqE)
  from 2(2) have "h = [a]" by (simp only: lang_Chr_iff)
  with 1(1) 2(1) have "w = u @ [a] @ v" by simp
  with 1(2) 2(3) show "\<exists>u v. w = u @ [a] @ v \<and> u \<in> lang r \<and> v \<in> lang s" by blast
next
  assume "\<exists>u v. w = u @ [a] @ v \<and> u \<in> lang r \<and> v \<in> lang s"
  then obtain u v where w: "w = u @ [a] @ v" and u: "u \<in> lang r" and v: "v \<in> lang s"
    by blast
  have "[a] \<in> lang (Chr a)" by (simp only: lang_Chr_iff)
  from this v have "[a] @ v \<in> lang (Seq (Chr a) s)" by (rule lang_SeqI)
  with u have "u @ [a] @ v \<in> lang (Seq r (Seq (Chr a) s))" by (rule lang_SeqI)
  with w show "w \<in> lang (Seq r (Seq (Chr a) s))" by simp
qed

lemma ticket_format_iff:
  "ticket_format t \<longleftrightarrow>
     (\<exists>p d r. t = p @ [0x2D] @ d @ [0x2D] @ r \<and>
        p \<noteq> [] \<and> (\<forall>c\<in>set p. isUpper c) \<and>
        length d = 8 \<and> (\<forall>c\<in>set d. isDigit c) \<and>
        length r = 6 \<and> (\<forall>c\<in>set r. isUpper c \<or> isDigit c))"
  (is "_ \<longleftrightarrow> ?flat")
proof -
  let ?P = "Plus (Class isUpper)"
  let ?D = "Times 8 (Class isDigit)"
  let ?R = "Times 6 (Class (\<lambda>c. isUpper c \<or> isDigit c))"
  have "ticket_format t \<longleftrightarrow>
          (\<exists>p v. t = p @ [0x2D] @ v \<and> p \<in> lang ?P \<and> v \<in> lang (Seq ?D (Seq (Chr 0x2D) ?R)))"
    by (simp only: ticket_format_def full_match_lang lang_block_sep [of t])
  also have "\<dots> \<longleftrightarrow>
          (\<exists>p v. t = p @ [0x2D] @ v \<and> p \<in> lang ?P \<and>
             (\<exists>d r. v = d @ [0x2D] @ r \<and> d \<in> lang ?D \<and> r \<in> lang ?R))"
    by (simp only: lang_block_sep [of _ ?D])
  also have "\<dots> \<longleftrightarrow>
          (\<exists>p d r. t = p @ [0x2D] @ d @ [0x2D] @ r \<and> p \<in> lang ?P \<and> d \<in> lang ?D \<and>
             r \<in> lang ?R)"
    by blast
  also have "\<dots> \<longleftrightarrow> ?flat"
    by (simp only: lang_Plus_Class lang_Times_Class conj_assoc)
  finally show ?thesis .
qed

lemma isValidEmail_iff:
  "isValidEmail e \<longleftrightarrow>
     (\<exists>a b c. e = a @ [0x40] @ b @ [0x2E] @ c \<and>
        a \<noteq> [] \<and> (\<forall>x\<in>set a. \<not> (isWhiteSpace x \<or> x = 0x40)) \<and>
        b \<noteq> [] \<and> (\<forall>x\<in>set b. \<not> (isWhiteSpace x \<or> x = 0x40)) \<and>
        c \<noteq> [] \<and> (\<forall>x\<in>set c. \<not> (isWhiteSpace x \<or> x = 0x40)))"
  (is "_ \<longleftrightarrow> ?flat")
proof -
  let ?A = "Plus (Class (\<lambda>c. \<not> (isWhiteSpace c \<or> c = 0x40)))"
  have "isValidEmail e \<longleftrightarrow>
          (\<exists>a v. e = a @ [0x40] @ v \<and> a \<in> lang ?A \<and> v \<in> lang (Seq ?A (Seq (Chr 0x2E) ?A)))"
    by (simp only: isValidEmail_def Let_def full_match_lang lang_block_sep [of e])
  also have "\<dots> \<longleftrightarrow>
          (\<exists>a v. e = a @ [0x40] @ v \<and> a \<in> lang ?A \<and>
             (\<exists>b c. v = b @ [0x2E] @ c \<and> b \<in> lang ?A \<and> c \<in> lang ?A))"
    by (simp only: lang_block_sep [of _ ?A])
  also have "\<dots> \<longleftrightarrow>
          (\<exists>a b c. e = a @ [0x40] @ b @ [0x2E] @ c \<and> a \<in> lang ?A \<and> b \<in> lang ?A \<and>
             c \<in> lang ?A)"
    by blast
  also have "\<dots> \<longleftrightarrow> ?flat"
    by (simp only: lang_Plus_Class conj_assoc)
  finally show ?thesis .
qed

section \<open>Properties of the handler\<close>

lemma trim_Nil: "trim [] = []"
  by (simp add: trim_def)

lemma handler_accepted:
  assumes "req_method req = js ''POST''" and "req_body req = Parsed body"
    and "\<not> honeypot body"
    and "ok (fst (rateLimit now (clientIp req) ipBucket))"
    and "passes_validation body"
  shows "handler env sendMail now today r36 ipBucket req =
     (let ipBucket' = snd (rateLimit now (clientIp req) ipBucket);
          name = trim (String_or_empty (body_name body));
          email = trim (String_or_empty (body_email body));
          message = trim (String_or_empty (body_message body));
          company = trim (String_or_empty (body_company body));
          phone = trim (String_or_empty (body_phone body))
      in if \<not> configured env
           then respond 500 (JError (js ''server_not_configured'')) [] ipBucket'
         else
           let user = String_or_empty (MAIL_USER env);
               to = String_or_empty (MAIL_TO env);
               ticket = makeTicket (js ''GEONIX'') today r36;
               admin = adminMail_of env today r36 body;
               ack = ackMail user to name email company phone ticket (summary_of message)
           in if \<not> sendMail admin then caught [admin] ipBucket'
              else if \<not> sendMail ack then caught [admin, ack] ipBucket'
              else respond 200 (JTicket ticket) [admin, ack] ipBucket')"
  using assms
  by (simp add: handler_def passes_validation_def configured_def adminMail_of_def Let_def
      not_less)

lemma example_accepted:
  "req_method example_request = js ''POST''"
  "req_body example_request = Parsed example_body"
  "\<not> honeypot example_body"
  "ok (fst (rateLimit 0 (clientIp example_request) Map.empty))"
  "passes_validation example_body"
  "configured example_env"
  by (simp add: example_request_def, simp add: example_request_def) code_simp+

lemma example_long_accepted:
  "req_method (example_request\<lparr>req_body := Parsed example_long_body\<rparr>) = js ''POST''"
  "req_body (example_request\<lparr>req_body := Parsed example_long_body\<rparr>) = Parsed example_long_body"
  "\<not> honeypot example_long_body"
  "ok (fst (rateLimit 0 (clientIp (example_request\<lparr>req_body := Parsed example_long_body\<rparr>))
         Map.empty))"
  "passes_validation example_long_body"
  by (simp add: example_request_def, simp add: example_request_def) code_simp+

lemma digit_char: "n < 10 \<Longrightarrow> isDigit (0x30 + of_nat n)"
proof -
  assume "n < 10"
  then have "n \<in> {0, 1, 2, 3, 4, 5, 6, 7, 8, 9}" by auto
  then show ?thesis by (auto simp: isDigit_def)
qed

lemma digits_isDigit: "c \<in> set (digits n) \<Longrightarrow> isDigit c"
proof (induction n rule: digits.induct)
  case (1 n)
  show ?case
  proof (cases "n < 10")
    case True
    with 1(2) show ?thesis by (simp add: digit_char)
  next
    case False
    then have "digits n = digits (n div 10) @ [0x30 + of_nat (n mod 10)]" by simp
    with 1 False show ?thesis by (auto simp del: digits.simps simp: digit_char)
  qed
qed

lemma length_digits_1: "n < 10 \<Longrightarrow> length (digits n) = 1"
  by simp

lemma length_digits_2: "10 \<le> n \<Longrightarrow> n < 100 \<Longrightarrow> length (digits n) = 2"
  by (subst digits.simps) (simp add: length_digits_1 del: digits.simps)

lemma length_digits_3: "100 \<le> n \<Longrightarrow> n < 1000 \<Longrightarrow> length (digits n) = 3"
  by (subst digits.simps) (simp add: length_digits_2 del: digits.simps)

lemma length_digits_4: "1000 \<le> n \<Longrightarrow> n < 10000 \<Longrightarrow> length (digits n) = 4"
  by (subst digits.simps) (simp add: length_digits_3 del: digits.simps)

lemma two_digits:
  assumes "n < 100"
  shows "length (padStart 2 0x30 (String_num (int n))) = 2 \<and>
         (\<forall>c\<in>set (padStart 2 0x30 (String_num (int n))). isDigit c)"
proof (cases "n < 10")
  case True
  then have "length (digits n) = 1" by (rule length_digits_1)
  then show ?thesis
    using digits_isDigit [of _ n]
    by (auto simp: padStart_def String_num_def isDigit_def simp del: digits.simps)
next
  case False
  with assms have "length (digits n) = 2" by (intro length_digits_2) simp_all
  then show ?thesis
    using digits_isDigit [of _ n]
    by (auto simp: padStart_def String_num_def simp del: digits.simps)
qed

lemma lower_to_upper:
  fixes c :: jschar
  shows "0x61 \<le> c \<Longrightarrow> c \<le> 0x7A \<Longrightarrow> isUpper (c - 0x20)"
  unfolding isUpper_def by unat_arith

lemma toUpperCase_char:
  assumes "isDigit c \<or> (0x61 \<le> c \<and> c \<le> 0x7A)"
  shows "isUpper (if 0x61 \<le> c \<and> c \<le> 0x7A then c - 0x20 else c) \<or>
         isDigit (if 0x61 \<le> c \<and> c \<le> 0x7A then c - 0x20 else c)"
  using assms lower_to_upper [of c] by auto

text \<open>
  The ticket has the format whenever the year has four digits and the rendering of
  the random number has at least six digits after \<^verbatim>\<open>0.\<close>.
\<close>

lemma makeTicket_format:
  assumes year: "1000 \<le> getFullYear d" "getFullYear d \<le> 9999"
    and month: "getMonth d < 12" and day: "getDate d \<le> 31"
    and r36: "r36 = js ''0.'' @ ds" "6 \<le> length ds"
      "\<forall>c\<in>set ds. isDigit c \<or> (0x61 \<le> c \<and> c \<le> 0x7A)"
  shows "ticket_format (makeTicket (js ''GEONIX'') d r36)"
proof -
  let ?y = "String_num (getFullYear d)"
  let ?m = "padStart 2 0x30 (String_num (int (getMonth d) + 1))"
  let ?day = "padStart 2 0x30 (String_num (int (getDate d)))"
  let ?rand = "toUpperCase (slice 2 8 r36)"
  from year have y: "?y = digits (nat (getFullYear d))" by (simp add: String_num_def)
  from year have "length (digits (nat (getFullYear d))) = 4"
    by (intro length_digits_4) simp_all
  with y have ylen: "length ?y = 4" and ydig: "\<forall>c\<in>set ?y. isDigit c"
    using digits_isDigit [of _ "nat (getFullYear d)"] by auto
  have eq: "int (getMonth d) + 1 = int (Suc (getMonth d))" by simp
  have m: "length ?m = 2 \<and> (\<forall>c\<in>set ?m. isDigit c)"
    unfolding eq by (rule two_digits) (use month in simp)
  from day two_digits [of "getDate d"]
  have dd: "length ?day = 2 \<and> (\<forall>c\<in>set ?day. isDigit c)" by simp
  have "slice 2 8 r36 = take 6 ds" using r36(1) by (simp add: slice_def js_def)
  then have rand: "?rand = map (\<lambda>c. if 0x61 \<le> c \<and> c \<le> 0x7A then c - 0x20 else c) (take 6 ds)"
    by (simp add: toUpperCase_def)
  from r36(2) have rlen: "length ?rand = 6" unfolding rand by simp
  have "\<forall>x\<in>set (take 6 ds). isUpper (if 0x61 \<le> x \<and> x \<le> 0x7A then x - 0x20 else x) \<or>
          isDigit (if 0x61 \<le> x \<and> x \<le> 0x7A then x - 0x20 else x)"
    using r36(3) toUpperCase_char by (blast dest: in_set_takeD)
  then have rch: "\<forall>c\<in>set ?rand. isUpper c \<or> isDigit c"
    unfolding rand by (simp only: set_map) blast
  have p: "js ''GEONIX'' \<noteq> [] \<and> (\<forall>c\<in>set (js ''GEONIX''). isUpper c)" by code_simp
  have t: "makeTicket (js ''GEONIX'') d r36
             = js ''GEONIX'' @ [0x2D] @ (?y @ ?m @ ?day) @ [0x2D] @ ?rand"
    by (simp add: makeTicket_def Let_def js_def)
  have "length (?y @ ?m @ ?day) = 8 \<and> (\<forall>c\<in>set (?y @ ?m @ ?day). isDigit c)"
    using ylen ydig m dd by auto
  with p rlen rch show ?thesis unfolding ticket_format_iff t by blast
qed

text \<open>
  C3. The ticket is meant to end in six upper-case alphanumeric characters (the source
  says so beside the line that makes them), but the suffix is whatever stands in
  positions 2 to 7 of the radix-36 rendering of the random number, and a rendering
  can be shorter than that. When \<^verbatim>\<open>Math.random()\<close> returns 0.5 the rendering is
  \<^verbatim>\<open>0.i\<close>, the ticket of 10 February 2026 is \<^verbatim>\<open>GEONIX-20260210-I\<close>, and it
  does not have the format \<^verbatim>\<open>^[A-Z]+-\d{8}-[A-Z0-9]{6}$\<close>.
\<close>

theorem makeTicket_short_random:
  "makeTicket (js ''GEONIX'') \<lparr>getFullYear = 2026, getMonth = 1, getDate = 10\<rparr> (js ''0.i'')
     = js ''GEONIX-20260210-I'' \<and>
   \<not> ticket_format
        (makeTicket (js ''GEONIX'') \<lparr>getFullYear = 2026, getMonth = 1, getDate = 10\<rparr> (js ''0.i''))"
  by code_simp

text \<open>
  C4. A POST request whose body parses and whose honeypot field is not empty after
  trimming is answered with status 200 and \<^verbatim>\<open>{ok: true}\<close>; no message is handed
  to the relay and the rate-limit table is not touched, whatever the other fields,
  the environment and the relay are.
\<close>

theorem handler_honeypot_silent:
  assumes "req_method req = js ''POST''" and "req_body req = Parsed body"
    and "body_hp body = Some hp" and "trim hp \<noteq> []"
  shows "handler env sendMail now today r36 ipBucket req =
           \<lparr>status = 200, json = JOk, retryAfter = None, sent = [], table = ipBucket\<rparr>"
proof -
  from assms(4) have "hp \<noteq> []" by (auto simp: trim_Nil)
  with assms(3,4) have "honeypot body" by (simp add: honeypot_def)
  with assms(1,2) show ?thesis by (simp add: handler_def respond_def)
qed

theorem handler_honeypot_silent_witness:
  "trim (js '' x '') \<noteq> [] \<and>
   handler example_env (\<lambda>m. True) 0 example_date (js ''0.4fzyo82mvyr'') Map.empty
     (example_request\<lparr>req_body := Parsed example_bot_body\<rparr>)
   = \<lparr>status = 200, json = JOk, retryAfter = None, sent = [], table = Map.empty\<rparr>"
proof -
  have h: "trim (js '' x '') \<noteq> []" by code_simp
  have m: "req_method (example_request\<lparr>req_body := Parsed example_bot_body\<rparr>) = js ''POST''"
    by (simp add: example_request_def)
  have b: "req_body (example_request\<lparr>req_body := Parsed example_bot_body\<rparr>)
             = Parsed example_bot_body" by simp
  have hp: "body_hp example_bot_body = Some (js '' x '')" by (simp add: example_bot_body_def)
  from h handler_honeypot_silent [OF m b hp h] show ?thesis by simp
qed

text \<open>
  C5. When an accepted submission meets a relay that fails on the admin notice, the
  response is status 500 with \<^verbatim>\<open>send_failed\<close>, and the admin notice is the only
  message that was handed to the relay: the acknowledgement is never attempted.
\<close>

theorem handler_first_send_fails:
  assumes "req_method req = js ''POST''" and "req_body req = Parsed body"
    and "\<not> honeypot body"
    and "ok (fst (rateLimit now (clientIp req) ipBucket))"
    and "passes_validation body"
    and "configured env"
    and "\<not> sendMail (adminMail_of env today r36 body)"
  shows "handler env sendMail now today r36 ipBucket req =
           \<lparr>status = 500, json = JError (js ''send_failed''), retryAfter = None,
            sent = [adminMail_of env today r36 body],
            table = snd (rateLimit now (clientIp req) ipBucket)\<rparr>"
  using handler_accepted [OF assms(1-5)] assms(6,7)
  by (simp add: Let_def respond_def caught_def)

theorem handler_first_send_fails_witness:
  "passes_validation example_body \<and> configured example_env \<and>
   handler example_env (\<lambda>m. False) 0 example_date (js ''0.4fzyo82mvyr'') Map.empty
     example_request
   = \<lparr>status = 500, json = JError (js ''send_failed''), retryAfter = None,
      sent = [adminMail_of example_env example_date (js ''0.4fzyo82mvyr'') example_body],
      table = snd (rateLimit 0 (clientIp example_request) Map.empty)\<rparr> \<and>
   mail_to (adminMail_of example_env example_date (js ''0.4fzyo82mvyr'') example_body)
     = js ''owner@example.com''"
proof -
  have f: "\<not> (\<lambda>m. False) (adminMail_of example_env example_date (js ''0.4fzyo82mvyr'')
             example_body)" by simp
  have t: "mail_to (adminMail_of example_env example_date (js ''0.4fzyo82mvyr'') example_body)
             = js ''owner@example.com''" by code_simp
  from example_accepted(5,6) t handler_first_send_fails
         [where sendMail = "\<lambda>m. False" and today = example_date
            and ?r36.0 = "js ''0.4fzyo82mvyr''", OF example_accepted f]
  show ?thesis by simp
qed

lemma replace_crlf_runs_clean: "c \<in> set (replace_crlf_runs s) \<Longrightarrow> \<not> isCRLF c"
  by (induction s rule: replace_crlf_runs.induct) (auto simp: isCRLF_def split: if_splits)

lemma set_trim: "set (trim s) \<subseteq> set s"
proof
  fix c
  assume "c \<in> set (trim s)"
  then have "c \<in> set (dropWhile isWhiteSpace (rev (dropWhile isWhiteSpace s)))"
    by (simp add: trim_def)
  then have "c \<in> set (rev (dropWhile isWhiteSpace s))" by (rule set_dropWhileD)
  then have "c \<in> set (dropWhile isWhiteSpace s)" by simp
  then show "c \<in> set s" by (rule set_dropWhileD)
qed

lemma escapeHeaderText_clean: "c \<in> set (escapeHeaderText s) \<Longrightarrow> \<not> isCRLF c"
  using set_trim [of "replace_crlf_runs s"] replace_crlf_runs_clean [of c s]
  by (auto simp: escapeHeaderText_def)

lemma replace_crlf_runs_id: "\<forall>c\<in>set s. \<not> isCRLF c \<Longrightarrow> replace_crlf_runs s = s"
  by (induction s) auto

lemma replace_crlf_runs_run:
  assumes "run \<noteq> []" and "\<forall>c\<in>set run. isCRLF c" and "b = [] \<or> \<not> isCRLF (hd b)"
  shows "a = [] \<or> \<not> isCRLF (last a) \<Longrightarrow>
         replace_crlf_runs (a @ run @ b) = replace_crlf_runs a @ [0x20] @ replace_crlf_runs b"
proof (induction a rule: replace_crlf_runs.induct)
  case 1
  from assms(1) obtain r rs where run: "run = r # rs" by (cases run) auto
  with assms(2) have r: "isCRLF r" and rs: "\<forall>c\<in>set rs. isCRLF c" by auto
  from assms(3) have "dropWhile isCRLF b = b" by (cases b) auto
  with rs have "dropWhile isCRLF (rs @ b) = b" by (simp add: dropWhile_append)
  with run r show ?case by simp
next
  case (2 c cs)
  show ?case
  proof (cases "isCRLF c")
    case False
    from 2(3) have "cs = [] \<or> \<not> isCRLF (last cs)" by (auto split: if_splits)
    with 2(2) False show ?thesis by simp
  next
    case True
    with 2(3) have ne: "cs \<noteq> []" and l: "\<not> isCRLF (last cs)" by (auto split: if_splits)
    then have in_cs: "last cs \<in> set cs" by simp
    with l have d: "dropWhile isCRLF (cs @ run @ b) = dropWhile isCRLF cs @ run @ b"
      by (metis dropWhile_append1)
    from in_cs l have dne: "dropWhile isCRLF cs \<noteq> []" by (auto simp: dropWhile_eq_Nil_conv)
    have "last (dropWhile isCRLF cs) = last cs"
      using dne
      by (metis append_Nil2 last_appendR takeWhile_dropWhile_id)
    with l have "dropWhile isCRLF cs = [] \<or> \<not> isCRLF (last (dropWhile isCRLF cs))" by simp
    with 2(1) True have
      "replace_crlf_runs (dropWhile isCRLF cs @ run @ b) =
       replace_crlf_runs (dropWhile isCRLF cs) @ [0x20] @ replace_crlf_runs b" by simp
    with True d show ?thesis by simp
  qed
qed

lemma isCRLF_isWhiteSpace: "isCRLF c \<Longrightarrow> isWhiteSpace c"
  by (auto simp: isCRLF_def isWhiteSpace_def)

lemma trim_ends:
  "trim s = [] \<or> (\<not> isWhiteSpace (hd (trim s)) \<and> \<not> isWhiteSpace (last (trim s)))"
proof (cases "trim s = []")
  case True
  then show ?thesis by simp
next
  case False
  let ?d = "dropWhile isWhiteSpace s"
  let ?e = "dropWhile isWhiteSpace (rev ?d)"
  have t: "trim s = rev ?e" by (simp add: trim_def)
  from False have e: "?e \<noteq> []" by (simp add: trim_def)
  have d: "?d \<noteq> []"
  proof
    assume "?d = []"
    with e show False by (simp only: rev.simps dropWhile.simps simp_thms)
  qed
  have "\<not> isWhiteSpace (hd ?e)" using e by (rule hd_dropWhile)
  then have l: "\<not> isWhiteSpace (last (trim s))" by (simp only: t last_rev simp_thms)
  have h: "\<not> isWhiteSpace (hd ?d)" using d by (rule hd_dropWhile)
  from d have "hd ?d \<in> set (rev ?d)" by simp
  from this h have "last ?e = last (rev ?d)" by (rule dropWhile_last)
  then have "hd (trim s) = hd ?d" by (simp only: t hd_rev last_rev)
  with h l show ?thesis by simp
qed

lemma trim_id:
  assumes "s = [] \<or> (\<not> isWhiteSpace (hd s) \<and> \<not> isWhiteSpace (last s))"
  shows "trim s = s"
proof -
  have 1: "dropWhile isWhiteSpace s = s" using assms by (auto simp: dropWhile_eq_self_iff)
  have "rev s = [] \<or> \<not> isWhiteSpace (hd (rev s))" using assms by (auto simp: hd_rev)
  then have "dropWhile isWhiteSpace (rev s) = rev s" by (simp only: dropWhile_eq_self_iff)
  with 1 show ?thesis by (simp add: trim_def)
qed

lemma replace_crlf_runs_hd:
  "s \<noteq> [] \<Longrightarrow> \<not> isCRLF (hd s) \<Longrightarrow> hd (replace_crlf_runs s) = hd s"
  by (cases s) auto

lemma replace_crlf_runs_Nil: "replace_crlf_runs s = [] \<longleftrightarrow> s = []"
  by (cases s) auto

lemma replace_crlf_runs_last:
  "s \<noteq> [] \<Longrightarrow> \<not> isCRLF (last s) \<Longrightarrow> last (replace_crlf_runs s) = last s"
proof (induction s rule: replace_crlf_runs.induct)
  case 1
  then show ?case by simp
next
  case (2 c cs)
  show ?case
  proof (cases "cs = []")
    case True
    with 2(4) show ?thesis by simp
  next
    case ne: False
    with 2(4) have l: "\<not> isCRLF (last cs)" by simp
    from ne have r: "replace_crlf_runs cs \<noteq> []" by (simp add: replace_crlf_runs_Nil)
    show ?thesis
    proof (cases "isCRLF c")
      case False
      with 2(2) ne l r show ?thesis by simp
    next
      case True
      let ?d = "dropWhile isCRLF cs"
      from ne have "last cs \<in> set cs" by simp
      from this l have dl: "last ?d = last cs" by (rule dropWhile_last)
      have dne: "?d \<noteq> []"
      proof
        assume "?d = []"
        then have "\<forall>x\<in>set cs. isCRLF x" by simp
        with \<open>last cs \<in> set cs\<close> l show False by blast
      qed
      then have rne: "replace_crlf_runs ?d \<noteq> []" by (simp only: replace_crlf_runs_Nil) simp
      from 2(1) True dne l dl have "last (replace_crlf_runs ?d) = last cs" by simp
      with True ne rne show ?thesis by simp
    qed
  qed
qed

lemma escapeHeaderText_trimmed: "escapeHeaderText (trim s) = replace_crlf_runs (trim s)"
proof (cases "trim s = []")
  case True
  then show ?thesis by (simp add: escapeHeaderText_def trim_id)
next
  case False
  with trim_ends [of s] have h: "\<not> isWhiteSpace (hd (trim s))"
    and l: "\<not> isWhiteSpace (last (trim s))" by auto
  then have "\<not> isCRLF (hd (trim s))" "\<not> isCRLF (last (trim s))"
    using isCRLF_isWhiteSpace by blast+
  with False h l have "\<not> isWhiteSpace (hd (replace_crlf_runs (trim s)))"
    "\<not> isWhiteSpace (last (replace_crlf_runs (trim s)))"
    by (simp_all add: replace_crlf_runs_hd replace_crlf_runs_last)
  then have "trim (replace_crlf_runs (trim s)) = replace_crlf_runs (trim s)"
    by (intro trim_id) simp
  then show ?thesis by (simp only: escapeHeaderText_def)
qed

text \<open>
  C6. For every string, the sanitised value has no carriage return and no line feed,
  and so the subject of the admin notice has none. The sanitised value is the trimmed
  result of the replacement, and on a trimmed string, which is what the handler
  passes, it is the result of the replacement itself. The replacement leaves a string
  without CR and LF as it is and turns every maximal run of CR and LF into one space.
\<close>

theorem escapeHeaderText_no_crlf:
  "0x0D \<notin> set (escapeHeaderText s) \<and> 0x0A \<notin> set (escapeHeaderText s) \<and>
   0x0D \<notin> set (mail_subject (adminMail_of env today r36 body)) \<and>
   0x0A \<notin> set (mail_subject (adminMail_of env today r36 body)) \<and>
   escapeHeaderText s = trim (replace_crlf_runs s) \<and>
   escapeHeaderText (trim s) = replace_crlf_runs (trim s) \<and>
   ((\<forall>c\<in>set s. c \<noteq> 0x0D \<and> c \<noteq> 0x0A) \<longrightarrow> replace_crlf_runs s = s) \<and>
   (run \<noteq> [] \<and> (\<forall>c\<in>set run. c = 0x0D \<or> c = 0x0A) \<and>
    (a = [] \<or> (last a \<noteq> 0x0D \<and> last a \<noteq> 0x0A)) \<and>
    (b = [] \<or> (hd b \<noteq> 0x0D \<and> hd b \<noteq> 0x0A)) \<longrightarrow>
    replace_crlf_runs (a @ run @ b) = replace_crlf_runs a @ [0x20] @ replace_crlf_runs b)"
proof -
  have clean: "0x0D \<notin> set (escapeHeaderText t) \<and> 0x0A \<notin> set (escapeHeaderText t)" for t
    using escapeHeaderText_clean [of _ t] by (auto simp: isCRLF_def)
  have fixed: "0x0D \<notin> set (js ''[GEONIX '' @ ko_web_inquiry @ js ''] '') \<and>
               0x0A \<notin> set (js ''[GEONIX '' @ ko_web_inquiry @ js ''] '') \<and>
               0x0D \<notin> set (js '' ('') \<and> 0x0A \<notin> set (js '' ('') \<and>
               0x0D \<notin> set (js '')'') \<and> 0x0A \<notin> set (js '')'')"
    by (simp add: js_def ko_web_inquiry_def)
  have subject: "0x0D \<notin> set (mail_subject (adminMail_of env today r36 body)) \<and>
                 0x0A \<notin> set (mail_subject (adminMail_of env today r36 body))"
    using clean fixed by (simp add: adminMail_of_def adminMail_def Let_def)
  have ident: "(\<forall>c\<in>set s. c \<noteq> 0x0D \<and> c \<noteq> 0x0A) \<longrightarrow> replace_crlf_runs s = s"
    using replace_crlf_runs_id [of s] by (simp add: isCRLF_def)
  have run: "run \<noteq> [] \<and> (\<forall>c\<in>set run. c = 0x0D \<or> c = 0x0A) \<and>
    (a = [] \<or> (last a \<noteq> 0x0D \<and> last a \<noteq> 0x0A)) \<and>
    (b = [] \<or> (hd b \<noteq> 0x0D \<and> hd b \<noteq> 0x0A)) \<longrightarrow>
    replace_crlf_runs (a @ run @ b) = replace_crlf_runs a @ [0x20] @ replace_crlf_runs b"
    using replace_crlf_runs_run [of run b a] by (simp add: isCRLF_def)
  show ?thesis
    using clean [of s] subject ident run escapeHeaderText_trimmed [of s]
    by (simp add: escapeHeaderText_def)
qed

theorem escapeHeaderText_no_crlf_witness:
  "0x0A \<notin> set (escapeHeaderText (js ''Evil'' @ [0x0A] @ js ''Bcc: attacker@x.com'')) \<and>
   0x0D \<notin> set (escapeHeaderText (js ''Evil'' @ [0x0A] @ js ''Bcc: attacker@x.com'')) \<and>
   replace_crlf_runs (js ''Kim'') = js ''Kim'' \<and>
   replace_crlf_runs (js ''Evil'' @ [0x0D, 0x0A] @ js ''Bcc: attacker@x.com'')
     = replace_crlf_runs (js ''Evil'') @ [0x20] @ replace_crlf_runs (js ''Bcc: attacker@x.com'')"
proof -
  note evil = escapeHeaderText_no_crlf
          [of "js ''Evil'' @ [0x0A] @ js ''Bcc: attacker@x.com''" example_env example_date
              "js ''0.4fzyo82mvyr''" example_body "[0x0D, 0x0A]" "js ''Evil''"
              "js ''Bcc: attacker@x.com''"]
  note kim = escapeHeaderText_no_crlf
          [of "js ''Kim''" example_env example_date "js ''0.4fzyo82mvyr''" example_body
              "[0x0D, 0x0A]" "js ''Evil''" "js ''Bcc: attacker@x.com''"]
  have plain: "\<forall>c\<in>set (js ''Kim''). c \<noteq> 0x0D \<and> c \<noteq> 0x0A"
    by code_simp
  have run: "[0x0D, 0x0A] \<noteq> ([] :: jsstring) \<and>
             (\<forall>c\<in>set [0x0D, 0x0A :: jschar]. c = 0x0D \<or> c = 0x0A) \<and>
             (js ''Evil'' = [] \<or> (last (js ''Evil'') \<noteq> 0x0D \<and> last (js ''Evil'') \<noteq> 0x0A)) \<and>
             (js ''Bcc: attacker@x.com'' = [] \<or>
              (hd (js ''Bcc: attacker@x.com'') \<noteq> 0x0D \<and> hd (js ''Bcc: attacker@x.com'') \<noteq> 0x0A))"
    by code_simp
  from kim plain have k: "replace_crlf_runs (js ''Kim'') = js ''Kim''" by blast
  from evil run have e: "replace_crlf_runs (js ''Evil'' @ [0x0D, 0x0A] @ js ''Bcc: attacker@x.com'')
     = replace_crlf_runs (js ''Evil'') @ [0x20] @ replace_crlf_runs (js ''Bcc: attacker@x.com'')"
    by blast
  from evil k e show ?thesis by blast
qed

text \<open>
  C7. For an accepted submission whose admin notice went out, the second message handed
  to the relay is the acknowledgement, and the summary in its two summary lines is the
  first 220 characters of the trimmed message followed by \<^verbatim>\<open>...\<close> when the
  trimmed message is longer than 220 characters, and the trimmed message itself
  otherwise; so it is for 300 and for 100 characters.
\<close>

theorem handler_ack_summary:
  assumes "req_method req = js ''POST''" and "req_body req = Parsed body"
    and "\<not> honeypot body"
    and "ok (fst (rateLimit now (clientIp req) ipBucket))"
    and "passes_validation body"
    and "configured env"
    and "sendMail (adminMail_of env today r36 body)"
  shows "let message = trim (String_or_empty (body_message body));
             summary = (if length message > 220 then take 220 message @ js ''...''
                        else message);
             name = trim (String_or_empty (body_name body));
             email = trim (String_or_empty (body_email body));
             company = trim (String_or_empty (body_company body));
             phone = trim (String_or_empty (body_phone body));
             ticket = makeTicket (js ''GEONIX'') today r36;
             ack = ackMail (String_or_empty (MAIL_USER env)) (String_or_empty (MAIL_TO env))
                     name email company phone ticket summary
         in sent (handler env sendMail now today r36 ipBucket req)
              = [adminMail_of env today r36 body, ack] \<and>
            mail_text ack = join [0x0A] (ackLines name company phone ticket summary) \<and>
            ackLines name company phone ticket summary ! 6
              = js ''- '' @ ko_summary_label @ js '': '' @ summary \<and>
            ackLines name company phone ticket summary ! 18
              = js ''- Message (summary): '' @ summary \<and>
            (length message = 300 \<longrightarrow> summary = take 220 message @ js ''...'') \<and>
            (length message = 100 \<longrightarrow> summary = message)"
proof -
  have s: "summary_of m = (if length m > 220 then take 220 m @ js ''...'' else m)" for m
    by (simp add: summary_of_def slice_def)
  have l6: "ackLines n c p t x ! 6 = js ''- '' @ ko_summary_label @ js '': '' @ x" for n c p t x
    by (simp add: ackLines_def)
  have l18: "ackLines n c p t x ! 18 = js ''- Message (summary): '' @ x" for n c p t x
    by (simp add: ackLines_def eval_nat_numeral)
  have "sent (handler env sendMail now today r36 ipBucket req) =
          [adminMail_of env today r36 body,
           ackMail (String_or_empty (MAIL_USER env)) (String_or_empty (MAIL_TO env))
             (trim (String_or_empty (body_name body))) (trim (String_or_empty (body_email body)))
             (trim (String_or_empty (body_company body)))
             (trim (String_or_empty (body_phone body)))
             (makeTicket (js ''GEONIX'') today r36)
             (summary_of (trim (String_or_empty (body_message body))))]"
    using handler_accepted [OF assms(1-5)] assms(6,7)
    by (simp add: Let_def respond_def caught_def)
  then show ?thesis
    unfolding Let_def s l6 l18 by (simp add: ackMail_def)
qed

theorem handler_ack_summary_witness:
  "length (trim (String_or_empty (body_message example_long_body))) = 300 \<and>
   mail_text (sent (handler example_env (\<lambda>m. True) 0 example_date (js ''0.4fzyo82mvyr'')
                      Map.empty (example_request\<lparr>req_body := Parsed example_long_body\<rparr>)) ! 1)
   = join [0x0A] (ackLines (js ''Kim'') [] (js ''010-1234'') (js ''GEONIX-20260210-4FZYO8'')
                    (replicate 220 0x61 @ js ''...'')) \<and>
   ackLines (js ''Kim'') [] (js ''010-1234'') (js ''GEONIX-20260210-4FZYO8'')
     (replicate 220 0x61 @ js ''...'') ! 18
   = js ''- Message (summary): '' @ replicate 220 0x61 @ js ''...''"
proof -
  have s: "(\<lambda>m. True) (adminMail_of example_env example_date (js ''0.4fzyo82mvyr'')
             example_long_body)" by simp
  have m: "trim (String_or_empty (body_message example_long_body)) = replicate 300 0x61"
    by code_simp
  have n: "trim (String_or_empty (body_name example_long_body)) = js ''Kim''"
    and c: "trim (String_or_empty (body_company example_long_body)) = []"
    and p: "trim (String_or_empty (body_phone example_long_body)) = js ''010-1234''"
    and t: "makeTicket (js ''GEONIX'') example_date (js ''0.4fzyo82mvyr'')
              = js ''GEONIX-20260210-4FZYO8''"
    by code_simp+
  from handler_ack_summary
         [where sendMail = "\<lambda>m. True" and today = example_date
            and ?r36.0 = "js ''0.4fzyo82mvyr''",
          OF example_long_accepted example_accepted(6) s]
  show ?thesis by (simp add: Let_def m n c p t)
qed

text \<open>
  C8. A POST request that is not a honeypot hit, is not rate limited and passes the
  field checks, met with an environment in which the host, the user, the password or
  the recipient is absent or empty, is answered with status 500 and
  \<^verbatim>\<open>server_not_configured\<close>, and no message is handed to the relay.
\<close>

theorem handler_not_configured:
  assumes "req_method req = js ''POST''" and "req_body req = Parsed body"
    and "\<not> honeypot body"
    and "ok (fst (rateLimit now (clientIp req) ipBucket))"
    and "passes_validation body"
    and "falsy (MAIL_HOST env) \<or> falsy (MAIL_USER env) \<or> falsy (MAIL_PASS env) \<or>
         falsy (MAIL_TO env)"
  shows "handler env sendMail now today r36 ipBucket req =
           \<lparr>status = 500, json = JError (js ''server_not_configured''), retryAfter = None,
            sent = [], table = snd (rateLimit now (clientIp req) ipBucket)\<rparr>"
proof -
  from assms(6) have "\<not> configured env" by (auto simp: configured_def)
  then show ?thesis
    using handler_accepted [OF assms(1-5)] by (simp add: Let_def respond_def)
qed

theorem handler_not_configured_witness:
  "falsy (MAIL_TO (example_env\<lparr>MAIL_TO := None\<rparr>)) \<and>
   handler (example_env\<lparr>MAIL_TO := None\<rparr>) (\<lambda>m. True) 0 example_date (js ''0.4fzyo82mvyr'')
     Map.empty example_request
   = \<lparr>status = 500, json = JError (js ''server_not_configured''), retryAfter = None,
      sent = [], table = snd (rateLimit 0 (clientIp example_request) Map.empty)\<rparr>"
proof -
  have f: "falsy (MAIL_TO (example_env\<lparr>MAIL_TO := None\<rparr>))" by (simp add: falsy_def)
  then have "falsy (MAIL_HOST (example_env\<lparr>MAIL_TO := None\<rparr>)) \<or>
             falsy (MAIL_USER (example_env\<lparr>MAIL_TO := None\<rparr>)) \<or>
             falsy (MAIL_PASS (example_env\<lparr>MAIL_TO := None\<rparr>)) \<or>
             falsy (MAIL_TO (example_env\<lparr>MAIL_TO := None\<rparr>))" by simp
  from f handler_not_configured [OF example_accepted(1-5) this] show ?thesis by simp
qed

end
